theory Spec2Isabelle
  imports Main "HOL-Library.Multiset"
begin

section \<open>The query builder of go-query-builder (gqbd.go)\<close>

text \<open>
  Go strings are modelled as \<open>string\<close> (a list of 8-bit characters) that hold UTF-8
  text: the functions of the source compare against ASCII characters only (\<open>?\<close>, \<open>"\<close>,
  the backtick, \<open>*\<close>), which in UTF-8 never occur inside a multi-byte sequence, so a loop
  over the runes of a text and a loop over its bytes produce the same bytes. (On bytes that
  are not valid UTF-8 the range loop of \<open>replacePlaceholders\<close> would read the replacement
  character; such strings are outside the model.)
  Go's \<open>int\<close> is modelled as \<open>int\<close>: the source does no arithmetic on \<open>limit\<close> and
  \<open>offset\<close>, and the only additions are \<open>len(args)+1\<close> and \<open>argIdx++\<close>.
  A value of type \<open>interface{}\<close> in the argument sequence is a \<open>val\<close>.
\<close>

subsection \<open>Library functions the source calls\<close>

text \<open>Decimal printing of an integer, as the verb \<open>%d\<close> does.\<close>

definition digit_char :: "nat \<Rightarrow> char" where
  "digit_char d = char_of (48 + d)"

fun nat_dec :: "nat \<Rightarrow> string" where
  "nat_dec n = (if n < 10 then [digit_char n] else nat_dec (n div 10) @ [digit_char (n mod 10)])"

declare nat_dec.simps [simp del]

definition itoa :: "int \<Rightarrow> string" where
  "itoa i = (if i < 0 then CHR ''-'' # nat_dec (nat (- i)) else nat_dec (nat i))"

text \<open>
  \<open>fmt.Sprintf\<close> for the format strings of the source: literal text and the verbs \<open>%s\<close>
  (a string operand) and \<open>%d\<close> (an int operand). A verb that finds no operand left prints
  \<open>%!s(MISSING)\<close> (with the verb's letter), as package fmt documents for too few
  arguments; an operand of the wrong kind prints \<open>%!d(string=...)\<close> or \<open>%!s(int=...)\<close>.
  No format string of the source has another verb, a flag or a trailing \<open>%\<close>, and no
  call passes more operands than its format has verbs: the model is meant for the calls of
  the source only.
\<close>

datatype fmtarg = S string | D int

fun fmt_verb :: "char \<Rightarrow> fmtarg \<Rightarrow> string" where
  "fmt_verb v (S s) = (if v = CHR ''s'' then s else ''%!'' @ [v] @ ''(string='' @ s @ '')'')"
| "fmt_verb v (D i) = (if v = CHR ''d'' then itoa i else ''%!'' @ [v] @ ''(int='' @ itoa i @ '')'')"

fun Sprintf :: "string \<Rightarrow> fmtarg list \<Rightarrow> string" where
  "Sprintf [] as = []"
| "Sprintf [c] as = [c]"
| "Sprintf (c # v # fs) as =
     (if c = CHR ''%'' then
        (case as of
           [] \<Rightarrow> ''%!'' @ [v] @ ''(MISSING)'' @ Sprintf fs []
         | a # as' \<Rightarrow> fmt_verb v a @ Sprintf fs as')
      else c # Sprintf (v # fs) as)"

text \<open>\<open>strings.Join\<close>.\<close>

fun Join :: "string list \<Rightarrow> string \<Rightarrow> string" where
  "Join [] sep = []"
| "Join [x] sep = x"
| "Join (x # y # ys) sep = x @ sep @ Join (y # ys) sep"

text \<open>
  \<open>strings.ReplaceAll\<close> with a pattern of one character, which is how the source calls it.
\<close>

fun ReplaceAll :: "string \<Rightarrow> char \<Rightarrow> string \<Rightarrow> string" where
  "ReplaceAll [] old new = []"
| "ReplaceAll (c # cs) old new = (if c = old then new else [c]) @ ReplaceAll cs old new"

text \<open>
  \<open>strings.ToUpper\<close> on ASCII text: the letters a to z are mapped to A to Z. (Go maps
  letters outside ASCII too; the theorems below speak of \<open>ToUpper direction\<close> as a whole
  and evaluate it on ASCII text only.)
\<close>

definition upper_char :: "char \<Rightarrow> char" where
  "upper_char c =
     (if (97::nat) \<le> of_char c \<and> of_char c \<le> (122::nat) then char_of (of_char c - (32::nat)) else c)"

definition ToUpper :: "string \<Rightarrow> string" where
  "ToUpper s = map upper_char s"

subsection \<open>The data model\<close>

type_synonym DBType = string

definition PostgreSQL :: DBType where
  "PostgreSQL = ''postgres''"

definition MariaDB :: DBType where
  "MariaDB = ''mariadb''"

datatype val = IntV int | StrV string | BoolV bool | NilV

record QueryBuilder =
  dbType :: DBType
  table :: string
  columns :: "string list"
  joins :: "string list"
  conditions :: "string list"
  groupBy :: "string list"
  having :: "string list"
  orderBy :: string
  limit :: int
  offset :: int
  args :: "val list"
  distinct_flag :: bool

subsection \<open>The helper functions\<close>

definition escapeIdentifier :: "DBType \<Rightarrow> string \<Rightarrow> string" where
  "escapeIdentifier dbt name =
     (if name = ''*'' then name
      else if dbt = PostgreSQL then
        Sprintf [CHR 0x22, CHR ''%'', CHR ''s'', CHR 0x22] [S (ReplaceAll name (CHR 0x22) [CHR 0x22, CHR 0x22])]
      else
        Sprintf [CHR 0x60, CHR ''%'', CHR ''s'', CHR 0x60] [S (ReplaceAll name (CHR 0x60) [CHR 0x60, CHR 0x60])])"

definition validateDirection :: "string \<Rightarrow> string" where
  "validateDirection direction =
     (let direction = ToUpper direction
      in if direction \<noteq> ''ASC'' \<and> direction \<noteq> ''DESC'' then ''DESC'' else direction)"

text \<open>The loop of \<open>replacePlaceholders\<close>, with the counter \<open>placeholderCount\<close>.\<close>

fun replace_loop :: "int \<Rightarrow> string \<Rightarrow> string" where
  "replace_loop placeholderCount [] = []"
| "replace_loop placeholderCount (char # rest) =
     (if char = CHR ''?'' then
        Sprintf ''$%d'' [D placeholderCount] @ replace_loop (placeholderCount + 1) rest
      else char # replace_loop placeholderCount rest)"

definition replacePlaceholders :: "DBType \<Rightarrow> string \<Rightarrow> int \<Rightarrow> string" where
  "replacePlaceholders dbt condition startIdx =
     (if dbt = MariaDB then condition else replace_loop startIdx condition)"

text \<open>
  \<open>generatePlaceholders\<close>: the parameter \<open>count\<close> (here \<open>cnt\<close>) is a natural number, since the two callers pass the
  length of a slice and the constant 2. The loop fills \<open>placeholders[i]\<close> for
  \<open>i = 0, ..., cnt - 1\<close>.
\<close>

definition generatePlaceholders :: "DBType \<Rightarrow> int \<Rightarrow> nat \<Rightarrow> string" where
  "generatePlaceholders dbt startIdx cnt =
     Join (map (\<lambda>i. if dbt = PostgreSQL then Sprintf ''$%d'' [D (startIdx + int i)] else ''?'')
             [0..<cnt]) '', ''"

subsection \<open>The builder\<close>

definition NewQueryBuilder :: "DBType \<Rightarrow> string \<Rightarrow> string list \<Rightarrow> QueryBuilder" where
  "NewQueryBuilder dbt tbl cols =
     (let safeTable = escapeIdentifier dbt tbl;
          safeColumns = map (escapeIdentifier dbt) cols;
          safeColumns = (if length safeColumns = 0 then [''*''] else safeColumns)
      in \<lparr> dbType = dbt, table = safeTable, columns = safeColumns, joins = [],
           conditions = [], groupBy = [], having = [], orderBy = [], limit = 0,
           offset = 0, args = [], distinct_flag = False \<rparr>)"

definition Distinct :: "QueryBuilder \<Rightarrow> QueryBuilder" where
  "Distinct qb = qb\<lparr>distinct_flag := True\<rparr>"

definition Aggregate :: "QueryBuilder \<Rightarrow> string \<Rightarrow> string \<Rightarrow> QueryBuilder" where
  "Aggregate qb function column =
     (let safeCol = escapeIdentifier (dbType qb) column
      in qb\<lparr>columns := columns qb @ [Sprintf ''%s(%s)'' [S function, S safeCol]]\<rparr>)"

definition LeftJoin :: "QueryBuilder \<Rightarrow> string \<Rightarrow> string \<Rightarrow> QueryBuilder" where
  "LeftJoin qb joinTable onCondition =
     (let safeTable = escapeIdentifier (dbType qb) joinTable
      in qb\<lparr>joins := joins qb @ [Sprintf ''LEFT JOIN %s ON %s'' [S safeTable, S onCondition]]\<rparr>)"

definition InnerJoin :: "QueryBuilder \<Rightarrow> string \<Rightarrow> string \<Rightarrow> QueryBuilder" where
  "InnerJoin qb joinTable onCondition =
     (let safeTable = escapeIdentifier (dbType qb) joinTable
      in qb\<lparr>joins := joins qb @ [Sprintf ''INNER JOIN %s ON %s'' [S safeTable, S onCondition]]\<rparr>)"

definition RightJoin :: "QueryBuilder \<Rightarrow> string \<Rightarrow> string \<Rightarrow> QueryBuilder" where
  "RightJoin qb joinTable onCondition =
     (let safeTable = escapeIdentifier (dbType qb) joinTable
      in qb\<lparr>joins := joins qb @ [Sprintf ''RIGHT JOIN %s ON %s'' [S safeTable, S onCondition]]\<rparr>)"

definition Where :: "QueryBuilder \<Rightarrow> string \<Rightarrow> val list \<Rightarrow> QueryBuilder" where
  "Where qb condition as =
     (let updatedCondition = replacePlaceholders (dbType qb) condition (int (length (args qb)) + 1)
      in qb\<lparr>conditions := conditions qb @ [updatedCondition], args := args qb @ as\<rparr>)"

definition WhereIn :: "QueryBuilder \<Rightarrow> string \<Rightarrow> val list \<Rightarrow> QueryBuilder" where
  "WhereIn qb column values =
     (let safeCol = escapeIdentifier (dbType qb) column;
          placeholders = generatePlaceholders (dbType qb) (int (length (args qb)) + 1) (length values)
      in qb\<lparr>conditions := conditions qb @ [Sprintf ''%s IN (%s)'' [S safeCol, S placeholders]],
            args := args qb @ values\<rparr>)"

definition WhereBetween :: "QueryBuilder \<Rightarrow> string \<Rightarrow> val \<Rightarrow> val \<Rightarrow> QueryBuilder" where
  "WhereBetween qb column start end =
     (let safeCol = escapeIdentifier (dbType qb) column;
          placeholders = generatePlaceholders (dbType qb) (int (length (args qb)) + 1) 2
      in qb\<lparr>conditions := conditions qb @ [Sprintf ''%s BETWEEN %s AND %s'' [S safeCol, S placeholders]],
            args := args qb @ [start, end]\<rparr>)"

definition GroupBy :: "QueryBuilder \<Rightarrow> string list \<Rightarrow> QueryBuilder" where
  "GroupBy qb cols = qb\<lparr>groupBy := groupBy qb @ map (escapeIdentifier (dbType qb)) cols\<rparr>"

definition Having :: "QueryBuilder \<Rightarrow> string \<Rightarrow> val list \<Rightarrow> QueryBuilder" where
  "Having qb condition as =
     (let updatedCondition = replacePlaceholders (dbType qb) condition (int (length (args qb)) + 1)
      in qb\<lparr>having := having qb @ [updatedCondition], args := args qb @ as\<rparr>)"

text \<open>
  \<open>allowedColumns\<close> is a Go map that may be nil: \<open>None\<close> is the nil map, \<open>Some m\<close> a map
  whose keys are \<open>dom m\<close>. The test \<open>_, ok := allowedColumns[column]\<close> asks for the key only.
\<close>

definition OrderBy ::
  "QueryBuilder \<Rightarrow> string \<Rightarrow> string \<Rightarrow> (string \<rightharpoonup> bool) option \<Rightarrow> QueryBuilder" where
  "OrderBy qb column direction allowedColumns =
     (let direction = validateDirection direction;
          column = (case allowedColumns of
                      None \<Rightarrow> column
                    | Some m \<Rightarrow> (case m column of None \<Rightarrow> ''id'' | Some _ \<Rightarrow> column));
          safeCol = escapeIdentifier (dbType qb) column
      in qb\<lparr>orderBy := Sprintf ''%s %s'' [S safeCol, S direction]\<rparr>)"

definition Limit :: "QueryBuilder \<Rightarrow> int \<Rightarrow> QueryBuilder" where
  "Limit qb l = qb\<lparr>limit := l\<rparr>"

definition Offset :: "QueryBuilder \<Rightarrow> int \<Rightarrow> QueryBuilder" where
  "Offset qb off = qb\<lparr>offset := off\<rparr>"

text \<open>
  \<open>Build\<close> returns the statement text and the argument sequence, and leaves the builder
  with the arguments it appended: the third component is the builder after the call.
\<close>

definition Build :: "QueryBuilder \<Rightarrow> string \<times> val list \<times> QueryBuilder" where
  "Build qb =
     (let q0 = ''SELECT '' @ Join (columns qb) '', '' @ '' FROM '' @ table qb;
          q1 = (if length (joins qb) > 0 then q0 @ ('' '' @ Join (joins qb) '' '') else q0);
          q2 = (if length (conditions qb) > 0
                then q1 @ ('' WHERE '' @ Join (conditions qb) '' AND '') else q1);
          q3 = (if orderBy qb \<noteq> [] then q2 @ ('' ORDER BY '' @ orderBy qb) else q2);
          argIdx = int (length (args qb)) + 1;
          (q4, args1, argIdx1) =
            (if limit qb > 0
             then (q3 @ Sprintf '' LIMIT $%d'' [D argIdx], args qb @ [IntV (limit qb)], argIdx + 1)
             else (q3, args qb, argIdx));
          (q5, args2) =
            (if offset qb > 0
             then (q4 @ Sprintf '' OFFSET $%d'' [D argIdx1], args1 @ [IntV (offset qb)])
             else (q4, args1))
      in (q5, args2, qb\<lparr>args := args2\<rparr>))"

subsection \<open>Sequences of builder calls\<close>

text \<open>
  The calls that allocate placeholders, as data, so that a theorem can speak about every
  sequence of them. \<open>apply_call\<close> is the call itself; \<open>call_args\<close> are the values the
  caller passes; \<open>fragment_of\<close> is the fragment the call appends (to \<open>having\<close> for
  \<open>Having\<close>, to \<open>conditions\<close> otherwise).
\<close>

datatype call =
    CWhere string "val list"
  | CWhereIn string "val list"
  | CWhereBetween string val val
  | CHaving string "val list"

fun apply_call :: "QueryBuilder \<Rightarrow> call \<Rightarrow> QueryBuilder" where
  "apply_call qb (CWhere condition as) = Where qb condition as"
| "apply_call qb (CWhereIn column values) = WhereIn qb column values"
| "apply_call qb (CWhereBetween column start end) = WhereBetween qb column start end"
| "apply_call qb (CHaving condition as) = Having qb condition as"

definition run :: "QueryBuilder \<Rightarrow> call list \<Rightarrow> QueryBuilder" where
  "run qb calls = foldl apply_call qb calls"



subsection \<open>Reading the generated text\<close>

text \<open>
  What a database reads in the generated text. \<open>markers\<close> lists, in order, the numbers
  of the positional parameters \<open>$N\<close> of a text: a \<open>$\<close> followed by at least one
  decimal digit, read up to the last digit of the run.
\<close>

definition is_digit :: "char \<Rightarrow> bool" where
  "is_digit c = ((48::nat) \<le> of_char c \<and> of_char c \<le> (57::nat))"

definition dec_val :: "string \<Rightarrow> nat" where
  "dec_val ds = foldl (\<lambda>a c. 10 * a + (of_char c - 48)) 0 ds"

fun markers :: "string \<Rightarrow> nat list" where
  "markers [] = []"
| "markers (c # cs) =
     (if c = CHR ''$'' \<and> takeWhile is_digit cs \<noteq> []
      then dec_val (takeWhile is_digit cs) # markers cs
      else markers cs)"






text \<open>
  \<open>read_quoted q s\<close> reads a quoted identifier as SQL does: the text opens with the
  quote character \<open>q\<close>, two quote characters in a row stand for one, and the first single
  one closes the identifier. The result is the identifier read and the text left over,
  or \<open>None\<close> when the text is not a quoted identifier.
\<close>

fun read_body :: "char \<Rightarrow> string \<Rightarrow> (string \<times> string) option" where
  "read_body q [] = None"
| "read_body q [c] = (if c = q then Some ([], []) else None)"
| "read_body q (c # d # cs) =
     (if c = q then
        (if d = q then map_option (\<lambda>(n, r). (q # n, r)) (read_body q cs)
         else Some ([], d # cs))
      else map_option (\<lambda>(n, r). (c # n, r)) (read_body q (d # cs)))"

definition read_quoted :: "char \<Rightarrow> string \<Rightarrow> (string \<times> string) option" where
  "read_quoted q s = (case s of [] \<Rightarrow> None | c # cs \<Rightarrow> if c = q then read_body q cs else None)"

section \<open>Properties\<close>

subsection \<open>The format strings of the source, expanded\<close>

lemma Sprintf_dollar [simp]: "Sprintf ''$%d'' [D n] = CHR ''$'' # itoa n"
  by simp

lemma Sprintf_limit [simp]: "Sprintf '' LIMIT $%d'' [D n] = '' LIMIT $'' @ itoa n"
  by simp

lemma Sprintf_offset [simp]: "Sprintf '' OFFSET $%d'' [D n] = '' OFFSET $'' @ itoa n"
  by simp

lemma Sprintf_in [simp]: "Sprintf ''%s IN (%s)'' [S a, S b] = a @ '' IN ('' @ b @ '')''"
  by simp

lemma Sprintf_between [simp]:
  "Sprintf ''%s BETWEEN %s AND %s'' [S a, S b] = a @ '' BETWEEN '' @ b @ '' AND %!s(MISSING)''"
  by simp

lemma Sprintf_pair [simp]: "Sprintf ''%s %s'' [S a, S b] = a @ '' '' @ b"
  by simp

lemma Sprintf_dquote [simp]: "Sprintf [CHR 0x22, CHR ''%'', CHR ''s'', CHR 0x22] [S a] = CHR 0x22 # a @ [CHR 0x22]"
  by simp

lemma Sprintf_bquote [simp]: "Sprintf [CHR 0x60, CHR ''%'', CHR ''s'', CHR 0x60] [S a] = CHR 0x60 # a @ [CHR 0x60]"
  by simp

subsection \<open>Helper facts\<close>

lemma ReplaceAll_concat: "ReplaceAll s old new = concat (map (\<lambda>c. if c = old then new else [c]) s)"
  by (induction s) simp_all

lemma dialects_differ: "PostgreSQL \<noteq> MariaDB"
  by (simp add: PostgreSQL_def MariaDB_def)

lemma Build_text: "fst (Build qb) =
     ''SELECT '' @ Join (columns qb) '', '' @ '' FROM '' @ table qb
     @ (if joins qb = [] then [] else '' '' @ Join (joins qb) '' '')
     @ (if conditions qb = [] then [] else '' WHERE '' @ Join (conditions qb) '' AND '')
     @ (if orderBy qb = [] then [] else '' ORDER BY '' @ orderBy qb)
     @ (if 0 < limit qb then '' LIMIT $'' @ itoa (int (length (args qb)) + 1) else [])
     @ (if 0 < offset qb
        then '' OFFSET $'' @ itoa (int (length (args qb)) + 1 + (if 0 < limit qb then 1 else 0))
        else [])"
  by (simp add: Build_def Let_def)

lemma Build_args: "fst (snd (Build qb)) =
     args qb @ (if 0 < limit qb then [IntV (limit qb)] else [])
             @ (if 0 < offset qb then [IntV (offset qb)] else [])"
  by (simp add: Build_def Let_def)

lemma Build_state: "snd (snd (Build qb)) = qb\<lparr>args := fst (snd (Build qb))\<rparr>"
  by (simp add: Build_def Let_def)

subsection \<open>Escaping and placeholder translation\<close>

lemma read_body_Cons:
  "c \<noteq> q \<Longrightarrow> xs \<noteq> [] \<Longrightarrow>
     read_body q (c # xs) = map_option (\<lambda>(n, r). (c # n, r)) (read_body q xs)"
  by (cases xs) simp_all

lemma read_body_doubled: "read_body q (ReplaceAll name q [q, q] @ [q]) = Some (name, [])"
proof (induction name)
  case Nil
  show ?case by simp
next
  case (Cons c cs)
  show ?case
  proof (cases "c = q")
    case True
    with Cons.IH show ?thesis by simp
  next
    case False
    with Cons.IH show ?thesis by (simp add: read_body_Cons)
  qed
qed

text \<open>
  C6. \<open>escapeIdentifier\<close> returns the wildcard \<open>*\<close> as it is. Any other name is
  wrapped in the dialect's quote character (the double quote, character 0x22, for
  PostgreSQL; the backtick, character 0x60, for MariaDB) with every quote character of
  the name doubled, and reading the result back as a quoted identifier gives the whole
  name with no text left over: the name cannot close the identifier early.
\<close>

theorem escapeIdentifier_quotes:
  "escapeIdentifier dbt ''*'' = ''*'' \<and>
   (name \<noteq> ''*'' \<longrightarrow>
      escapeIdentifier PostgreSQL name =
        CHR 0x22 # concat (map (\<lambda>c. if c = CHR 0x22 then [CHR 0x22, CHR 0x22] else [c]) name)
          @ [CHR 0x22] \<and>
      escapeIdentifier MariaDB name =
        CHR 0x60 # concat (map (\<lambda>c. if c = CHR 0x60 then [CHR 0x60, CHR 0x60] else [c]) name)
          @ [CHR 0x60] \<and>
      read_quoted (CHR 0x22) (escapeIdentifier PostgreSQL name) = Some (name, []) \<and>
      read_quoted (CHR 0x60) (escapeIdentifier MariaDB name) = Some (name, []))"
proof -
  have star: "escapeIdentifier dbt ''*'' = ''*''"
    by (simp add: escapeIdentifier_def)
  have pg: "escapeIdentifier PostgreSQL name =
      CHR 0x22 # ReplaceAll name (CHR 0x22) [CHR 0x22, CHR 0x22] @ [CHR 0x22]"
    if "name \<noteq> ''*''"
    using that by (simp add: escapeIdentifier_def)
  have my: "escapeIdentifier MariaDB name =
      CHR 0x60 # ReplaceAll name (CHR 0x60) [CHR 0x60, CHR 0x60] @ [CHR 0x60]"
    if "name \<noteq> ''*''"
    using that dialects_differ by (simp add: escapeIdentifier_def)
  show ?thesis
    using star pg my
    by (simp add: read_quoted_def read_body_doubled ReplaceAll_concat [symmetric])
qed

theorem escapeIdentifier_quotes_witness:
  "escapeIdentifier PostgreSQL [CHR ''a'', CHR 0x22, CHR ''b'']
     = [CHR 0x22, CHR ''a'', CHR 0x22, CHR 0x22, CHR ''b'', CHR 0x22] \<and>
   escapeIdentifier MariaDB [CHR ''a'', CHR 0x60, CHR ''b'']
     = [CHR 0x60, CHR ''a'', CHR 0x60, CHR 0x60, CHR ''b'', CHR 0x60] \<and>
   read_quoted (CHR 0x22) (escapeIdentifier PostgreSQL [CHR ''a'', CHR 0x22, CHR ''b''])
     = Some ([CHR ''a'', CHR 0x22, CHR ''b''], [])"
  using escapeIdentifier_quotes [of PostgreSQL "[CHR ''a'', CHR 0x22, CHR ''b'']"]
    escapeIdentifier_quotes [of MariaDB "[CHR ''a'', CHR 0x60, CHR ''b'']"]
  by (simp add: read_quoted_def)




subsection \<open>The filters\<close>

lemma generatePlaceholders_PostgreSQL:
  "generatePlaceholders PostgreSQL startIdx cnt =
     Join (map (\<lambda>i. CHR ''$'' # itoa (startIdx + int i)) [0..<cnt]) '', ''"
  by (simp add: generatePlaceholders_def)

lemma generatePlaceholders_other:
  "dbt \<noteq> PostgreSQL \<Longrightarrow> generatePlaceholders dbt startIdx cnt = Join (replicate cnt ''?'') '', ''"
  by (simp add: generatePlaceholders_def map_replicate_const)


text \<open>
  C2. \<open>WhereBetween\<close> passes two operands (the escaped column and the joined placeholder
  list) to a format string with three verbs. On a new PostgreSQL builder,
  \<open>WhereBetween("age", 18, 65)\<close> appends the fragment
  \<open>"age" BETWEEN $1, $2 AND %!s(MISSING)\<close>, not \<open>"age" BETWEEN $1 AND $2\<close>; the
  arguments are appended as 18, then 65.
\<close>

theorem WhereBetween_fragment:
  "conditions (WhereBetween (NewQueryBuilder PostgreSQL ''t'' []) ''age'' (IntV 18) (IntV 65))
     = [[CHR 0x22] @ ''age'' @ [CHR 0x22] @ '' BETWEEN $1, $2 AND %!s(MISSING)''] \<and>
   args (WhereBetween (NewQueryBuilder PostgreSQL ''t'' []) ''age'' (IntV 18) (IntV 65))
     = [IntV 18, IntV 65]"
  by code_simp

text \<open>
  C5. \<open>WhereIn\<close> appends one condition, the escaped column followed by \<open>IN (...)\<close>
  around \<open>len(values)\<close> placeholders joined with a comma and a space: for PostgreSQL
  \<open>$n\<close> numbered from \<open>len(args) + 1\<close>, for MariaDB \<open>?\<close> each time. It appends the
  values to the arguments in their order and changes nothing else.
\<close>

theorem WhereIn_spec:
  "WhereIn qb column values =
     qb\<lparr>conditions := conditions qb @
            [escapeIdentifier (dbType qb) column @ '' IN (''
             @ Join (if dbType qb = PostgreSQL
                     then map (\<lambda>i. CHR ''$'' # itoa (int (length (args qb)) + 1 + int i))
                            [0..<length values]
                     else replicate (length values) ''?'') '', ''
             @ '')''],
        args := args qb @ values\<rparr>"
  by (simp add: WhereIn_def Let_def generatePlaceholders_PostgreSQL generatePlaceholders_other)

theorem WhereIn_spec_witness:
  "conditions (WhereIn (NewQueryBuilder PostgreSQL ''t'' []) ''status'' [IntV 1, IntV 2, IntV 3])
     = [[CHR 0x22] @ ''status'' @ [CHR 0x22] @ '' IN ($1, $2, $3)''] \<and>
   args (WhereIn (NewQueryBuilder PostgreSQL ''t'' []) ''status'' [IntV 1, IntV 2, IntV 3])
     = [IntV 1, IntV 2, IntV 3] \<and>
   conditions (WhereIn (NewQueryBuilder MariaDB ''t'' []) ''status'' [IntV 1, IntV 2, IntV 3])
     = [[CHR 0x60] @ ''status'' @ [CHR 0x60] @ '' IN (?, ?, ?)'']"
proof -
  have pg: "escapeIdentifier PostgreSQL ''status'' = [CHR 0x22] @ ''status'' @ [CHR 0x22]"
    by code_simp
  have my: "escapeIdentifier MariaDB ''status'' = [CHR 0x60] @ ''status'' @ [CHR 0x60]"
    by code_simp
  have n: "itoa 1 = ''1''" "itoa 2 = ''2''" "itoa 3 = ''3''"
    by code_simp+
  have u: "[0..<3] = [0, 1, 2]"
    by code_simp
  have r: "replicate 3 ''?'' = [''?'', ''?'', ''?'']"
    by code_simp
  show ?thesis
    using WhereIn_spec [of "NewQueryBuilder PostgreSQL ''t'' []" "''status''" "[IntV 1, IntV 2, IntV 3]"]
      WhereIn_spec [of "NewQueryBuilder MariaDB ''t'' []" "''status''" "[IntV 1, IntV 2, IntV 3]"]
      dialects_differ
    by (simp add: NewQueryBuilder_def pg my n u r)
qed

subsection \<open>Ordering\<close>

lemma validateDirection_eq:
  "validateDirection direction = (if ToUpper direction = ''ASC'' then ''ASC'' else ''DESC'')"
  by (simp add: validateDirection_def Let_def)



subsection \<open>Assembly\<close>

text \<open>
  C3. The text of \<open>Build\<close> is the text without pagination followed by \<open>LIMIT $n\<close> when
  the limit is greater than zero and by \<open>OFFSET $n\<close> when the offset is greater than
  zero, numbered from \<open>len(args) + 1\<close>; the dialect plays no part. The values are
  appended to the arguments under the same conditions, the limit before the offset.
\<close>

theorem Build_limit_offset:
  "fst (Build qb) =
     fst (Build (qb\<lparr>limit := 0, offset := 0\<rparr>))
     @ (if 0 < limit qb then '' LIMIT $'' @ itoa (int (length (args qb)) + 1) else [])
     @ (if 0 < offset qb
        then '' OFFSET $'' @ itoa (int (length (args qb)) + (if 0 < limit qb then 2 else 1))
        else []) \<and>
   fst (snd (Build qb)) =
     args qb @ (if 0 < limit qb then [IntV (limit qb)] else [])
             @ (if 0 < offset qb then [IntV (offset qb)] else [])"
  by (simp add: Build_text Build_args add.commute)

theorem Build_limit_offset_witness:
  "fst (Build (Offset (Limit (NewQueryBuilder MariaDB ''t'' []) 10) 5))
     = fst (Build (NewQueryBuilder MariaDB ''t'' [])) @ '' LIMIT $1 OFFSET $2'' \<and>
   fst (snd (Build (Offset (Limit (NewQueryBuilder MariaDB ''t'' []) 10) 5)))
     = [IntV 10, IntV 5] \<and>
   fst (Build (Offset (Limit (NewQueryBuilder PostgreSQL ''t'' []) 0) (- 5)))
     = fst (Build (NewQueryBuilder PostgreSQL ''t'' [])) \<and>
   fst (snd (Build (Offset (Limit (NewQueryBuilder PostgreSQL ''t'' []) 0) (- 5)))) = []"
proof -
  have n: "itoa 1 = ''1''" "itoa 2 = ''2''"
    by code_simp+
  show ?thesis
    using Build_limit_offset [of "Offset (Limit (NewQueryBuilder MariaDB ''t'' []) 10) 5"]
      Build_limit_offset [of "Offset (Limit (NewQueryBuilder PostgreSQL ''t'' []) 0) (- 5)"]
    by (simp add: NewQueryBuilder_def Limit_def Offset_def n)
qed

lemma Sprintf_left_join [simp]:
  "Sprintf ''LEFT JOIN %s ON %s'' [S a, S b] = ''LEFT JOIN '' @ a @ '' ON '' @ b"
  by simp

lemma Sprintf_inner_join [simp]:
  "Sprintf ''INNER JOIN %s ON %s'' [S a, S b] = ''INNER JOIN '' @ a @ '' ON '' @ b"
  by simp

lemma Sprintf_right_join [simp]:
  "Sprintf ''RIGHT JOIN %s ON %s'' [S a, S b] = ''RIGHT JOIN '' @ a @ '' ON '' @ b"
  by simp

text \<open>
  C8. The text of \<open>Build\<close> is \<open>SELECT\<close> and the columns joined with a comma,
  \<open>FROM\<close> and the table, then, each only when its state is not empty: the joins
  separated by spaces, \<open>WHERE\<close> and the conditions joined with \<open>AND\<close>, \<open>ORDER BY\<close>
  and its fragment, \<open>LIMIT\<close>, \<open>OFFSET\<close>. The join calls and \<open>Where\<close> append their
  fragment at the end of their list, so the lists are in call order. The text is the
  same whatever the fields \<open>distinct\<close>, \<open>groupBy\<close> and \<open>having\<close> hold.
\<close>

theorem Build_clause_order:
  "fst (Build qb) =
     ''SELECT '' @ Join (columns qb) '', '' @ '' FROM '' @ table qb
     @ (if joins qb = [] then [] else '' '' @ Join (joins qb) '' '')
     @ (if conditions qb = [] then [] else '' WHERE '' @ Join (conditions qb) '' AND '')
     @ (if orderBy qb = [] then [] else '' ORDER BY '' @ orderBy qb)
     @ (if 0 < limit qb then '' LIMIT $'' @ itoa (int (length (args qb)) + 1) else [])
     @ (if 0 < offset qb
        then '' OFFSET $'' @ itoa (int (length (args qb)) + (if 0 < limit qb then 2 else 1))
        else []) \<and>
   fst (Build (qb\<lparr>distinct_flag := b, groupBy := g, having := h\<rparr>)) = fst (Build qb) \<and>
   joins (LeftJoin qb joinTable onCondition) =
     joins qb @ [''LEFT JOIN '' @ escapeIdentifier (dbType qb) joinTable @ '' ON '' @ onCondition] \<and>
   joins (InnerJoin qb joinTable onCondition) =
     joins qb @ [''INNER JOIN '' @ escapeIdentifier (dbType qb) joinTable @ '' ON '' @ onCondition] \<and>
   joins (RightJoin qb joinTable onCondition) =
     joins qb @ [''RIGHT JOIN '' @ escapeIdentifier (dbType qb) joinTable @ '' ON '' @ onCondition] \<and>
   conditions (Where qb condition as) =
     conditions qb @ [replacePlaceholders (dbType qb) condition (int (length (args qb)) + 1)]"
  by (simp add: Build_text LeftJoin_def InnerJoin_def RightJoin_def Where_def Let_def add.commute)

theorem Build_clause_order_witness:
  "fst (Build (Having (GroupBy (Distinct (NewQueryBuilder PostgreSQL ''t'' [])) [''dept''])
                 ''count(*) > ?'' [IntV 3]))
     = ''SELECT * FROM '' @ [CHR 0x22] @ ''t'' @ [CHR 0x22] \<and>
   fst (Build (Offset (Limit (OrderBy (Where (Where (InnerJoin (LeftJoin
                 (NewQueryBuilder PostgreSQL ''t'' [''id'', ''name''])
                 ''u'' ''u.id = t.uid'') ''v'' ''v.id = t.vid'')
                 ''a = ?'' [IntV 1]) ''b = ?'' [IntV 2]) ''id'' ''ASC'' None) 10) 5))
     = ''SELECT '' @ [CHR 0x22] @ ''id'' @ [CHR 0x22] @ '', '' @ [CHR 0x22] @ ''name'' @ [CHR 0x22]
       @ '' FROM '' @ [CHR 0x22] @ ''t'' @ [CHR 0x22]
       @ '' LEFT JOIN '' @ [CHR 0x22] @ ''u'' @ [CHR 0x22] @ '' ON u.id = t.uid''
       @ '' INNER JOIN '' @ [CHR 0x22] @ ''v'' @ [CHR 0x22] @ '' ON v.id = t.vid''
       @ '' WHERE a = $1 AND b = $2 ORDER BY '' @ [CHR 0x22] @ ''id'' @ [CHR 0x22] @ '' ASC''
       @ '' LIMIT $3 OFFSET $4''"
proof -
  have n: "itoa 1 = ''1''" "itoa 2 = ''2''" "itoa 3 = ''3''" "itoa 4 = ''4''"
    by code_simp+
  have d: "ToUpper ''ASC'' = ''ASC''"
    by code_simp
  show ?thesis
    using Build_clause_order [of "Having (GroupBy (Distinct (NewQueryBuilder PostgreSQL ''t'' []))
                 [''dept'']) ''count(*) > ?'' [IntV 3]"]
      Build_clause_order [of "Offset (Limit (OrderBy (Where (Where (InnerJoin (LeftJoin
                 (NewQueryBuilder PostgreSQL ''t'' [''id'', ''name''])
                 ''u'' ''u.id = t.uid'') ''v'' ''v.id = t.vid'')
                 ''a = ?'' [IntV 1]) ''b = ?'' [IntV 2]) ''id'' ''ASC'' None) 10) 5"]
      dialects_differ
    by (simp add: NewQueryBuilder_def Distinct_def GroupBy_def Having_def Where_def
        LeftJoin_def InnerJoin_def OrderBy_def Limit_def Offset_def Let_def
        escapeIdentifier_def replacePlaceholders_def validateDirection_eq n d)
qed

subsection \<open>Dialects other than the two named ones\<close>

text \<open>
  C10, as the code has it. For every dialect other than PostgreSQL, \<open>escapeIdentifier\<close>
  and \<open>generatePlaceholders\<close> behave as for MariaDB (backticks, \<open>?\<close> each time). For
  every dialect other than MariaDB, an unknown one included, \<open>replacePlaceholders\<close>
  behaves as for PostgreSQL and numbers the placeholders.
\<close>

theorem unknown_dialect:
  "(dbt \<noteq> PostgreSQL \<longrightarrow>
      escapeIdentifier dbt name = escapeIdentifier MariaDB name \<and>
      generatePlaceholders dbt startIdx cnt = generatePlaceholders MariaDB startIdx cnt \<and>
      generatePlaceholders dbt startIdx cnt = Join (replicate cnt ''?'') '', '') \<and>
   (dbt \<noteq> MariaDB \<longrightarrow>
      replacePlaceholders dbt condition startIdx =
        replacePlaceholders PostgreSQL condition startIdx)"
  using dialects_differ
  by (simp add: escapeIdentifier_def replacePlaceholders_def generatePlaceholders_other)

theorem unknown_dialect_witness:
  "''sqlite'' \<noteq> PostgreSQL \<and> ''sqlite'' \<noteq> MariaDB \<and>
   escapeIdentifier ''sqlite'' ''a'' = escapeIdentifier MariaDB ''a'' \<and>
   generatePlaceholders ''sqlite'' 1 2 = ''?, ?'' \<and>
   replacePlaceholders ''sqlite'' ''a = ?'' 1 = replacePlaceholders PostgreSQL ''a = ?'' 1"
proof -
  have ne: "''sqlite'' \<noteq> PostgreSQL" "''sqlite'' \<noteq> MariaDB"
    by (simp_all add: PostgreSQL_def MariaDB_def)
  have r: "Join (replicate 2 ''?'') '', '' = ''?, ?''"
    by code_simp
  from ne unknown_dialect [of "''sqlite''" "''a''" 1 2 "''a = ?''"]
  have "escapeIdentifier ''sqlite'' ''a'' = escapeIdentifier MariaDB ''a''"
    and "generatePlaceholders ''sqlite'' 1 2 = Join (replicate 2 ''?'') '', ''"
    and "replacePlaceholders ''sqlite'' ''a = ?'' 1 = replacePlaceholders PostgreSQL ''a = ?'' 1"
    by blast+
  with ne r show ?thesis
    by simp
qed

theorem unknown_dialect_counterexample:
  "''sqlite'' \<noteq> PostgreSQL \<and>
   replacePlaceholders ''sqlite'' ''a = ?'' 1 = ''a = $1'' \<and>
   replacePlaceholders MariaDB ''a = ?'' 1 = ''a = ?'' \<and>
   replacePlaceholders ''sqlite'' ''a = ?'' 1 \<noteq> replacePlaceholders MariaDB ''a = ?'' 1"
  by code_simp

subsection \<open>Decimal numbers, printed and read back\<close>

lemma is_digit_digit_char: "d < 10 \<Longrightarrow> is_digit (digit_char d)"
  by (simp add: is_digit_def digit_char_def)

lemma digit_char_value: "d < 10 \<Longrightarrow> of_char (digit_char d) - (48::nat) = d"
  by (simp add: digit_char_def)

lemma dollar_not_digit: "\<not> is_digit (CHR ''$'')"
  by (simp add: is_digit_def)

lemma nat_dec_digits: "c \<in> set (nat_dec n) \<Longrightarrow> is_digit c"
proof (induction n arbitrary: c rule: nat_dec.induct)
  case (1 n)
  show ?case
  proof (cases "n < 10")
    case True
    with "1.prems" show ?thesis
      by (simp add: nat_dec.simps [of n] is_digit_digit_char)
  next
    case False
    with "1.prems" "1.IH" show ?thesis
      by (auto simp add: nat_dec.simps [of n] is_digit_digit_char)
  qed
qed

lemma nat_dec_not_Nil: "nat_dec n \<noteq> []"
  by (simp add: nat_dec.simps [of n])

lemma dec_val_snoc: "dec_val (ds @ [c]) = 10 * dec_val ds + (of_char c - 48)"
  by (simp add: dec_val_def)

lemma dec_val_nat_dec: "dec_val (nat_dec n) = n"
proof (induction n rule: nat_dec.induct)
  case (1 n)
  show ?case
  proof (cases "n < 10")
    case True
    then show ?thesis
      by (simp add: nat_dec.simps [of n] dec_val_def digit_char_value)
  next
    case False
    with "1.IH" show ?thesis
      by (simp add: nat_dec.simps [of n] dec_val_snoc digit_char_value)
  qed
qed

lemma itoa_int: "itoa (int n) = nat_dec n"
  by (simp add: itoa_def)

lemma nat_dec_no_dollar: "CHR ''$'' \<notin> set (nat_dec n)"
  using nat_dec_digits dollar_not_digit by blast

lemma takeWhile_nat_dec:
  "takeWhile is_digit rest = [] \<Longrightarrow> takeWhile is_digit (nat_dec n @ rest) = nat_dec n"
  by (simp add: takeWhile_append2 nat_dec_digits)

subsection \<open>Positional parameters in a text\<close>



lemma markers_no_dollar: "CHR ''$'' \<notin> set xs \<Longrightarrow> markers (xs @ ys) = markers ys"
  by (induction xs) auto

lemma markers_dollar:
  "takeWhile is_digit rest = [] \<Longrightarrow> markers (CHR ''$'' # nat_dec n @ rest) = n # markers rest"
  by (simp add: takeWhile_nat_dec nat_dec_not_Nil dec_val_nat_dec markers_no_dollar
      nat_dec_no_dollar)








lemma escapeIdentifier_head: "takeWhile is_digit (escapeIdentifier dbt name @ rest) = []"
  by (simp add: escapeIdentifier_def is_digit_def)





subsection \<open>The fragments of the filter calls\<close>






subsection \<open>Sequences of calls\<close>

lemma run_Nil [simp]: "run q [] = q"
  by (simp add: run_def)

lemma run_Cons [simp]: "run q (c # cs) = run (apply_call q c) cs"
  by (simp add: run_def)





subsection \<open>The positional parameters of the assembled text\<close>


lemma markers_pagination:
  "markers ((if 0 < l then '' LIMIT $'' @ itoa (int n + 1) else [])
            @ (if 0 < off then '' OFFSET $'' @ itoa (int n + (if 0 < l then 2 else 1)) else []))
     = (if (0::int) < l then [Suc n] else [])
       @ (if (0::int) < off then [n + (if 0 < l then 2 else 1)] else []) \<and>
   takeWhile is_digit
     ((if 0 < l then '' LIMIT $'' @ itoa (int n + 1) else [])
      @ (if 0 < off then '' OFFSET $'' @ itoa (int n + (if 0 < l then 2 else 1)) else [])) = []"
proof -
  have i1: "itoa (int n + 1) = nat_dec (Suc n)" and i2: "itoa (int n + 2) = nat_dec (n + 2)"
    using itoa_int [of "Suc n"] itoa_int [of "n + 2"] by (simp_all add: add.commute)
  have o1: "markers ('' OFFSET '' @ CHR ''$'' # nat_dec k @ []) = [k]" for k
  proof -
    have "markers ('' OFFSET '' @ CHR ''$'' # nat_dec k @ []) = markers (CHR ''$'' # nat_dec k @ [])"
      by (rule markers_no_dollar) simp
    also have "\<dots> = k # markers []"
      by (rule markers_dollar) simp
    finally show ?thesis by simp
  qed
  have l1: "markers ('' LIMIT '' @ CHR ''$'' # nat_dec k @ rest) = k # markers rest"
    if "takeWhile is_digit rest = []" for k rest
  proof -
    have "markers ('' LIMIT '' @ CHR ''$'' # nat_dec k @ rest)
        = markers (CHR ''$'' # nat_dec k @ rest)"
      by (rule markers_no_dollar) simp
    also have "\<dots> = k # markers rest"
      using that by (rule markers_dollar)
    finally show ?thesis .
  qed
  have sp: "takeWhile is_digit ('' OFFSET '' @ xs) = []" for xs
    by (simp add: is_digit_def)
  show ?thesis
    using o1 [of "Suc n"] o1 [of "n + 2"] l1 [of "[]" "Suc n"]
      l1 [OF sp, of "Suc n" "CHR ''$'' # nat_dec (n + 2) @ []"]
    by (simp add: i1 i2 is_digit_def del: markers.simps(2))
qed



subsection \<open>Building twice\<close>

text \<open>
  C9. When the limit or the offset is greater than zero, a second \<open>Build\<close> on the builder
  the first one left appends the limit and the offset again: the second argument list is
  the first one followed by these values, it is longer, and the second text numbers
  \<open>LIMIT\<close> and \<open>OFFSET\<close> from the length of the first argument list, so the two texts
  differ.
\<close>

theorem Build_twice:
  assumes pos: "0 < limit qb \<or> 0 < offset qb"
    and b1: "Build qb = (text1, args1, qb1)" and b2: "Build qb1 = (text2, args2, qb2)"
  shows "args2 = args1 @ (if 0 < limit qb then [IntV (limit qb)] else [])
                       @ (if 0 < offset qb then [IntV (offset qb)] else []) \<and>
         length args1 < length args2 \<and>
         text2 = fst (Build (qb\<lparr>limit := 0, offset := 0\<rparr>))
           @ (if 0 < limit qb then '' LIMIT $'' @ itoa (int (length args1) + 1) else [])
           @ (if 0 < offset qb
              then '' OFFSET $'' @ itoa (int (length args1) + (if 0 < limit qb then 2 else 1))
              else []) \<and>
         text2 \<noteq> text1"
proof -
  define base where "base = fst (Build (qb\<lparr>limit := 0, offset := 0\<rparr>))"
  define T where "T n =
    (if 0 < limit qb then '' LIMIT $'' @ itoa (int n + 1) else [])
    @ (if 0 < offset qb then '' OFFSET $'' @ itoa (int n + (if 0 < limit qb then 2 else 1))
       else [])" for n :: nat
  have a1: "args1 = args qb @ (if 0 < limit qb then [IntV (limit qb)] else [])
                       @ (if 0 < offset qb then [IntV (offset qb)] else [])"
    using b1 Build_args [of qb] by simp
  have q1: "qb1 = qb\<lparr>args := args1\<rparr>"
    using b1 Build_state [of qb] by simp
  have a2: "args2 = args1 @ (if 0 < limit qb then [IntV (limit qb)] else [])
                       @ (if 0 < offset qb then [IntV (offset qb)] else [])"
    using b2 Build_args [of qb1] by (simp add: q1)
  have len: "length args1 < length args2" and len0: "length (args qb) < length args1"
    using pos by (auto simp add: a1 a2)
  have t1: "text1 = base @ T (length (args qb))"
    using b1 Build_text [of qb] by (simp add: base_def T_def Build_text add.commute)
  have t2: "text2 = base @ T (length args1)"
    using b2 Build_text [of qb1] by (simp add: base_def T_def Build_text q1 add.commute)
  have m: "markers (T n) = (if 0 < limit qb then [Suc n] else [])
      @ (if 0 < offset qb then [n + (if 0 < limit qb then 2 else 1)] else [])" for n
    using markers_pagination [of "limit qb" n "offset qb"] by (simp only: T_def)
  have "T (length args1) \<noteq> T (length (args qb))"
  proof
    assume "T (length args1) = T (length (args qb))"
    then have "markers (T (length args1)) = markers (T (length (args qb)))"
      by simp
    with pos len0 show False
      by (auto simp add: m split: if_splits)
  qed
  then have ne: "text2 \<noteq> text1"
    by (simp add: t1 t2)
  from a2 len t2 ne show ?thesis
    by (simp add: base_def T_def)
qed

theorem Build_twice_witness:
  "Build (Offset (Limit (NewQueryBuilder PostgreSQL ''t'' []) 10) 5)
     = (''SELECT * FROM '' @ [CHR 0x22] @ ''t'' @ [CHR 0x22] @ '' LIMIT $1 OFFSET $2'',
        [IntV 10, IntV 5],
        (Offset (Limit (NewQueryBuilder PostgreSQL ''t'' []) 10) 5)\<lparr>args := [IntV 10, IntV 5]\<rparr>) \<and>
   fst (Build ((Offset (Limit (NewQueryBuilder PostgreSQL ''t'' []) 10) 5)
                 \<lparr>args := [IntV 10, IntV 5]\<rparr>))
     = ''SELECT * FROM '' @ [CHR 0x22] @ ''t'' @ [CHR 0x22] @ '' LIMIT $3 OFFSET $4'' \<and>
   fst (snd (Build ((Offset (Limit (NewQueryBuilder PostgreSQL ''t'' []) 10) 5)
                 \<lparr>args := [IntV 10, IntV 5]\<rparr>)))
     = [IntV 10, IntV 5, IntV 10, IntV 5]"
proof -
  let ?q = "Offset (Limit (NewQueryBuilder PostgreSQL ''t'' []) 10) 5"
  have pos: "0 < limit ?q \<or> 0 < offset ?q"
    by (simp add: Limit_def Offset_def)
  have b1: "Build ?q = (''SELECT * FROM '' @ [CHR 0x22] @ ''t'' @ [CHR 0x22] @ '' LIMIT $1 OFFSET $2'',
        [IntV 10, IntV 5], ?q\<lparr>args := [IntV 10, IntV 5]\<rparr>)"
    by code_simp
  have b2: "Build (?q\<lparr>args := [IntV 10, IntV 5]\<rparr>) =
      (fst (Build (?q\<lparr>args := [IntV 10, IntV 5]\<rparr>)),
       fst (snd (Build (?q\<lparr>args := [IntV 10, IntV 5]\<rparr>))),
       snd (snd (Build (?q\<lparr>args := [IntV 10, IntV 5]\<rparr>))))"
    by simp
  have n: "itoa 3 = ''3''" "itoa 4 = ''4''"
    by code_simp+
  have base: "fst (Build ((NewQueryBuilder PostgreSQL ''t'' [])\<lparr>limit := 0, offset := 0\<rparr>))
      = ''SELECT * FROM '' @ [CHR 0x22] @ ''t'' @ [CHR 0x22]"
    by code_simp
  from Build_twice [OF pos b1 b2] b1 show ?thesis
    by (simp add: Limit_def Offset_def n base)
qed

subsection \<open>Placeholders of the MariaDB dialect\<close>







subsection \<open>Arguments and placeholders\<close>




end
